theory Spec2Isabelle
  imports Main
begin

section \<open>The tunnel agent of lib/TunnelAgent.js\<close>

text \<open>
  A \<open>TunnelAgent\<close> owns a TCP listener, a pool of tunnel sockets dialled by one client and
  a queue of pending \<open>createConnection\<close> callbacks. The class is modelled as a record
  that is passed through every method and event handler and returned updated. Everything a
  handler does outside the object (calling a callback, arming a zero-delay timer, emitting a
  lifecycle event, destroying a socket, registering a one-shot socket handler) is appended
  to a log held in the same record, so that it can be observed.
\<close>

subsection \<open>Sockets, callbacks and effects\<close>

text \<open>
  A socket object is identified by the number the runtime gave it when the connection was
  accepted; \<open>remoteAddress\<close> is the peer address string Node reports for it. A callback
  passed to \<open>createConnection\<close> is identified by a number chosen by the caller.
\<close>

datatype socket = Socket (sid: nat) (remoteAddress: string)

type_synonym callback = nat

text \<open>\<open>new Error('closed')\<close> and \<open>new Error('already started')\<close>.\<close>

datatype error = Closed | AlreadyStarted

text \<open>One invocation \<open>cb(err, socket)\<close> of a callback.\<close>

datatype outcome = Failed error | Delivered socket

text \<open>The events the agent emits: \<open>'online'\<close>, \<open>'offline'\<close>, \<open>'end'\<close>.\<close>

datatype lifecycle = Online | Offline | End

text \<open>The socket events the agent listens to: \<open>'timeout'\<close>, \<open>'close'\<close>, \<open>'error'\<close>.\<close>

datatype sock_event = Timeout | Close | SockError

subsection \<open>The ipaddr.js library\<close>

text \<open>
  \<open>_onConnection\<close> calls six functions of the third-party package ipaddr.js. The package
  is not part of the repository, so it is a parameter of the model: a record of the functions
  used, over any type \<open>'ip\<close> of parsed IPv6 addresses. \<open>toIPv4AddressString\<close> stands for
  the chain \<open>ip.toIPv4Address().toString()\<close>.
\<close>

record 'ip ipaddr =
  IPv4_isValid :: "string \<Rightarrow> bool"
  IPv6_isValid :: "string \<Rightarrow> bool"
  IPv6_parse :: "string \<Rightarrow> 'ip"
  isIPv4MappedAddress :: "'ip \<Rightarrow> bool"
  toIPv4AddressString :: "'ip \<Rightarrow> string"
  toNormalizedString :: "'ip \<Rightarrow> string"

subsection \<open>The agent\<close>

text \<open>
  The constructor's options. Both are counts (sockets, milliseconds), hence natural
  numbers; \<open>None\<close> is an option that was not given. \<open>clientId\<close> only labels debug
  output and is left out.
\<close>

record options =
  opt_maxTcpSockets :: "nat option"
  opt_socketTimeout :: "nat option"

text \<open>
  The first eight fields are the fields of the JavaScript object. \<open>listening\<close> is the state
  of \<open>this.server\<close>; \<open>nextSocket\<close> numbers the sockets the listener accepts. The rest
  are the logs of effects: \<open>handlers\<close> holds the one-shot handlers registered on sockets
  and not yet run, \<open>idleTimeouts\<close> the calls of \<open>socket.setTimeout\<close>, \<open>destroyed\<close>
  the calls of \<open>socket.destroy\<close>, \<open>timers\<close> the queue of pending
  \<open>setTimeout(() => fn(null, socket), 0)\<close> hand-overs, \<open>calls\<close> the callback invocations
  made so far and \<open>emitted\<close> the lifecycle events emitted so far, each in order.
\<close>

record agent =
  availableSockets :: "socket list"
  waitingCreateConn :: "callback list"
  connectedSockets :: int
  maxTcpSockets :: nat
  socketTimeout :: nat
  started :: bool
  closed :: bool
  agentIps :: "string list"
  listening :: bool
  nextSocket :: nat
  handlers :: "(socket \<times> sock_event) list"
  idleTimeouts :: "(socket \<times> nat) list"
  destroyed :: "socket list"
  timers :: "(callback \<times> socket) list"
  calls :: "(callback \<times> outcome) list"
  emitted :: "lifecycle list"

definition DEFAULT_MAX_SOCKETS :: nat where
  "DEFAULT_MAX_SOCKETS = 10"

definition DEFAULT_SOCKET_TIMEOUT :: nat where
  "DEFAULT_SOCKET_TIMEOUT = 60 * 1000"

text \<open>JavaScript's \<open>x || d\<close> on a number: \<open>undefined\<close> and \<open>0\<close> are falsy.\<close>

definition or_default :: "nat option \<Rightarrow> nat \<Rightarrow> nat" where
  "or_default x d = (case x of None \<Rightarrow> d | Some n \<Rightarrow> if n = 0 then d else n)"

text \<open>The constructor.\<close>

definition new_agent :: "options \<Rightarrow> agent" where
  "new_agent opts =
     \<lparr> availableSockets = [],
       waitingCreateConn = [],
       connectedSockets = 0,
       maxTcpSockets = or_default (opt_maxTcpSockets opts) DEFAULT_MAX_SOCKETS,
       socketTimeout = or_default (opt_socketTimeout opts) DEFAULT_SOCKET_TIMEOUT,
       started = False,
       closed = False,
       agentIps = [],
       listening = False,
       nextSocket = 0,
       handlers = [],
       idleTimeouts = [],
       destroyed = [],
       timers = [],
       calls = [],
       emitted = [] \<rparr>"

text \<open>\<open>stats()\<close>.\<close>

definition stats :: "agent \<Rightarrow> int" where
  "stats a = connectedSockets a"

subsection \<open>The close cascade: \<open>_onClose\<close>\<close>

text \<open>
  Sets \<open>closed\<close>, calls every waiting callback with \<open>Error('closed')\<close> in queue order,
  empties the queue and emits \<open>'end'\<close>. A callback that re-enters \<open>createConnection\<close>
  while the loop runs finds \<open>closed\<close> set, so it cannot change the array being iterated.
  Callbacks are taken to return normally, here and in \<open>createConnection\<close>.
\<close>

definition onClose :: "agent \<Rightarrow> agent" where
  "onClose a0 =
     (let a = a0\<lparr>closed := True\<rparr>;
          a = a\<lparr>calls := calls a @ map (\<lambda>conn. (conn, Failed Closed)) (waitingCreateConn a)\<rparr>;
          a = a\<lparr>waitingCreateConn := []\<rparr>
      in a\<lparr>emitted := emitted a @ [End]\<rparr>)"

subsection \<open>Admission of a socket: \<open>_onConnection\<close>\<close>

text \<open>
  Lines 158 to 173: the sanitised peer address, \<open>None\<close> for \<open>null\<close>.
\<close>

definition agentIpOf :: "'ip ipaddr \<Rightarrow> string \<Rightarrow> string option" where
  "agentIpOf lib ipString =
     (if IPv4_isValid lib ipString then Some ipString
      else if IPv6_isValid lib ipString then
        (let ip = IPv6_parse lib ipString
         in if isIPv4MappedAddress lib ip then Some (toIPv4AddressString lib ip)
            else Some (toNormalizedString lib ip))
      else None)"

text \<open>
  The handler of a socket's \<open>'close'\<close> event (lines 130 to 144). \<open>indexOf\<close> followed by
  \<open>splice(idx, 1)\<close> removes the first occurrence, which is \<open>remove1\<close>.
\<close>

definition onSocketClose :: "socket \<Rightarrow> agent \<Rightarrow> agent" where
  "onSocketClose socket a0 =
     (let a = a0\<lparr>connectedSockets := connectedSockets a0 - 1\<rparr>;
          a = a\<lparr>availableSockets := remove1 socket (availableSockets a)\<rparr>
      in if connectedSockets a \<le> 0 then a\<lparr>emitted := emitted a @ [Offline]\<rparr> else a)"

text \<open>The handlers of \<open>'timeout'\<close> and \<open>'error'\<close>: both only destroy the socket.\<close>

definition onSocketTimeout :: "socket \<Rightarrow> agent \<Rightarrow> agent" where
  "onSocketTimeout socket a = a\<lparr>destroyed := destroyed a @ [socket]\<rparr>"

definition onSocketError :: "socket \<Rightarrow> agent \<Rightarrow> agent" where
  "onSocketError socket a = a\<lparr>destroyed := destroyed a @ [socket]\<rparr>"

text \<open>
  \<open>_onConnection(socket)\<close>. The over-budget branch returns before any handler is
  registered. \<open>!!agentIp\<close> is false for \<open>null\<close> and for the empty string. \<open>shift()\<close>
  on an empty array gives \<open>undefined\<close>, which is falsy; a callback is a function, which
  is truthy.
\<close>

definition onConnection :: "'ip ipaddr \<Rightarrow> socket \<Rightarrow> agent \<Rightarrow> agent" where
  "onConnection lib socket a0 =
     (let a = a0\<lparr>idleTimeouts := idleTimeouts a0 @ [(socket, socketTimeout a0)]\<rparr>
      in if connectedSockets a \<ge> int (maxTcpSockets a)
         then a\<lparr>destroyed := destroyed a @ [socket]\<rparr>
         else
           (let a = a\<lparr>handlers := handlers a @
                        [(socket, Timeout), (socket, Close), (socket, SockError)]\<rparr>;
                a = (if connectedSockets a = 0 then a\<lparr>emitted := emitted a @ [Online]\<rparr> else a);
                a = (case agentIpOf lib (remoteAddress socket) of
                       None \<Rightarrow> a
                     | Some agentIp \<Rightarrow>
                         if agentIp \<noteq> [] \<and> agentIp \<notin> set (agentIps a)
                         then a\<lparr>agentIps := agentIps a @ [agentIp]\<rparr> else a);
                a = a\<lparr>connectedSockets := connectedSockets a + 1\<rparr>
            in case waitingCreateConn a of
                 fn # rest \<Rightarrow> a\<lparr>waitingCreateConn := rest, timers := timers a @ [(fn, socket)]\<rparr>
               | [] \<Rightarrow> a\<lparr>availableSockets := availableSockets a @ [socket]\<rparr>))"

text \<open>A zero-delay timer armed by \<open>_onConnection\<close> fires: \<open>fn(null, socket)\<close>.\<close>

definition fireTimer :: "agent \<Rightarrow> agent" where
  "fireTimer a =
     (case timers a of
        [] \<Rightarrow> a
      | (fn, socket) # rest \<Rightarrow> a\<lparr>timers := rest, calls := calls a @ [(fn, Delivered socket)]\<rparr>)"

subsection \<open>\<open>createConnection\<close> and \<open>destroy\<close>\<close>

text \<open>\<open>createConnection(options, cb)\<close>; the argument \<open>options\<close> is not read.\<close>

definition createConnection :: "callback \<Rightarrow> agent \<Rightarrow> agent" where
  "createConnection cb a =
     (if closed a then a\<lparr>calls := calls a @ [(cb, Failed Closed)]\<rparr>
      else
        (case availableSockets a of
           [] \<Rightarrow> a\<lparr>waitingCreateConn := waitingCreateConn a @ [cb]\<rparr>
         | sock # rest \<Rightarrow>
             a\<lparr>availableSockets := rest, calls := calls a @ [(cb, Delivered sock)]\<rparr>))"

text \<open>
  \<open>destroy()\<close>: \<open>this.server.close()\<close> makes the listener stop accepting; Node emits
  the listener's \<open>'close'\<close> event later, from the event loop, once every accepted connection
  has ended. \<open>super.destroy()\<close> destroys the sockets held in the pools of the inherited
  \<open>http.Agent\<close>; their \<open>'close'\<close> events arrive later as well. No field of the agent is
  assigned.
\<close>

definition destroy :: "agent \<Rightarrow> agent" where
  "destroy a = a\<lparr>listening := False\<rparr>"

text \<open>
  The part of \<open>listen()\<close> that acts on the agent: the guard against a second start, the
  registration of \<open>_onClose\<close> and \<open>_onConnection\<close> on the listener, and
  \<open>server.listen\<close>.
\<close>

definition listen_agent :: "agent \<Rightarrow> error + agent" where
  "listen_agent a =
     (if started a then Inl AlreadyStarted
      else Inr (a\<lparr>started := True, listening := True\<rparr>))"

subsection \<open>The event loop\<close>

text \<open>
  What can happen to an agent, one step at a time. \<open>Connection addr\<close> is a client dialling
  the listener from \<open>addr\<close>: the listener accepts only while it listens, and hands a new
  socket object to \<open>_onConnection\<close>. \<open>SocketEvent s e\<close> is event \<open>e\<close> on socket
  \<open>s\<close>: the handlers are registered with \<open>once\<close>, so a handler runs only if it is
  registered and is removed when it runs. \<open>ListenerClose\<close> is the listener's
  \<open>'close'\<close> event, handled by \<open>_onClose\<close> once \<open>listen()\<close> has registered it.
\<close>

datatype event =
    Listen
  | Connection string
  | SocketEvent socket sock_event
  | TimerFires
  | CreateConnection callback
  | ListenerClose
  | Destroy

definition onSocketEvent :: "sock_event \<Rightarrow> socket \<Rightarrow> agent \<Rightarrow> agent" where
  "onSocketEvent e socket a =
     (case e of
        Timeout \<Rightarrow> onSocketTimeout socket a
      | Close \<Rightarrow> onSocketClose socket a
      | SockError \<Rightarrow> onSocketError socket a)"

definition step :: "'ip ipaddr \<Rightarrow> event \<Rightarrow> agent \<Rightarrow> agent" where
  "step lib ev a =
     (case ev of
        Listen \<Rightarrow> (case listen_agent a of Inl err \<Rightarrow> a | Inr a' \<Rightarrow> a')
      | Connection addr \<Rightarrow>
          if listening a
          then onConnection lib (Socket (nextSocket a) addr) (a\<lparr>nextSocket := Suc (nextSocket a)\<rparr>)
          else a
      | SocketEvent s e \<Rightarrow>
          if (s, e) \<in> set (handlers a)
          then onSocketEvent e s (a\<lparr>handlers := remove1 (s, e) (handlers a)\<rparr>)
          else a
      | TimerFires \<Rightarrow> fireTimer a
      | CreateConnection cb \<Rightarrow> createConnection cb a
      | ListenerClose \<Rightarrow> if started a then onClose a else a
      | Destroy \<Rightarrow> destroy a)"

fun run :: "'ip ipaddr \<Rightarrow> event list \<Rightarrow> agent \<Rightarrow> agent" where
  "run lib [] a = a"
| "run lib (ev # evs) a = run lib evs (step lib ev a)"

subsection \<open>\<open>listen()\<close> and the public address lookup\<close>

text \<open>
  What \<open>fetch('https://ipv4.icanhazip.com/')\<close> can do: its promise rejects (no network,
  DNS or TLS failure), or it yields a response with its \<open>ok\<close> flag and its body text.
\<close>

datatype fetch_outcome = FetchRejected | FetchResponse bool string

text \<open>The white space \<open>String.prototype.trim\<close> removes from an ASCII string.\<close>

definition is_space :: "char \<Rightarrow> bool" where
  "is_space c = (c \<in> set [CHR '' '', CHR 0x09, CHR 0x0A, CHR 0x0B, CHR 0x0C, CHR 0x0D])"

definition trim :: "string \<Rightarrow> string" where
  "trim s = rev (dropWhile is_space (rev (dropWhile is_space s)))"

text \<open>
  \<open>getPublicIPv4()\<close>: \<open>Inl ()\<close> is a rejected promise (the \<open>await fetch\<close> throws and
  nothing catches it), \<open>Inr None\<close> is \<open>null\<close>.
\<close>

definition getPublicIPv4 :: "fetch_outcome \<Rightarrow> unit + string option" where
  "getPublicIPv4 fo =
     (case fo of
        FetchRejected \<Rightarrow> Inl ()
      | FetchResponse ok body \<Rightarrow> if \<not> ok then Inr None else Inr (Some (trim body)))"

text \<open>A string value is truthy unless it is \<open>null\<close> or empty.\<close>

definition truthy :: "string option \<Rightarrow> bool" where
  "truthy v = (case v of None \<Rightarrow> False | Some s \<Rightarrow> s \<noteq> [])"

text \<open>The object \<open>listen()\<close> resolves with; \<open>publicIp\<close> is \<open>None\<close> when the key is absent.\<close>

record info =
  port :: nat
  publicIp :: "string option"

text \<open>The promise \<open>listen()\<close> returns either resolves or stays pending for ever.\<close>

datatype 'a promise = Resolved 'a | NeverSettled

text \<open>
  \<open>listen()\<close>, with the module variable \<open>PUBLIC_IP\<close> passed in and returned. The port
  the system bound and the outcome of the fetch are parameters. \<open>Inl\<close> is the synchronous
  \<open>throw\<close>. The listening callback is an \<open>async\<close> function: when the awaited
  \<open>getPublicIPv4()\<close> rejects, the callback stops there and \<open>resolve(info)\<close> is never
  reached.
\<close>

definition listen ::
  "nat \<Rightarrow> fetch_outcome \<Rightarrow> string option \<times> agent \<Rightarrow> (error + info promise) \<times> string option \<times> agent"
where
  "listen bound fo st =
     (case st of (PUBLIC_IP, a) \<Rightarrow>
        (case listen_agent a of
           Inl err \<Rightarrow> (Inl err, PUBLIC_IP, a)
         | Inr a' \<Rightarrow>
             if truthy PUBLIC_IP
             then (Inr (Resolved \<lparr>port = bound, publicIp = PUBLIC_IP\<rparr>), PUBLIC_IP, a')
             else
               (case getPublicIPv4 fo of
                  Inl u \<Rightarrow> (Inr NeverSettled, PUBLIC_IP, a')
                | Inr ip \<Rightarrow>
                    (Inr (Resolved \<lparr>port = bound, publicIp = (if truthy ip then ip else None)\<rparr>),
                     ip, a'))))"

subsection \<open>Sockets held by consumers\<close>

text \<open>
  A socket is connected, from the agent's point of view, while its one-shot \<open>'close'\<close>
  handler is still registered. \<open>handedOut\<close> lists the sockets the agent has given to a
  consumer callback: those passed in a callback invocation, then those bound to a callback
  by a pending zero-delay timer. \<open>checkedOut\<close> are the connected ones among them.
\<close>

definition connected :: "agent \<Rightarrow> socket \<Rightarrow> bool" where
  "connected a s = ((s, Close) \<in> set (handlers a))"

fun delivered :: "callback \<times> outcome \<Rightarrow> socket list" where
  "delivered (cb, Delivered s) = [s]"
| "delivered (cb, Failed e) = []"

definition handedOut :: "agent \<Rightarrow> socket list" where
  "handedOut a = concat (map delivered (calls a)) @ map snd (timers a)"

definition checkedOut :: "agent \<Rightarrow> socket list" where
  "checkedOut a = filter (connected a) (handedOut a)"


text \<open>Lines 176 to 178: the sanitised address is pushed unless it is falsy or already there.\<close>

definition pushIp :: "string \<Rightarrow> string list \<Rightarrow> string list" where
  "pushIp agentIp ips = (if agentIp \<noteq> [] \<and> agentIp \<notin> set ips then ips @ [agentIp] else ips)"

subsection \<open>Sample inputs\<close>

text \<open>
  The answers of ipaddr.js on three addresses: a dotted IPv4 address, an IPv4-mapped IPv6
  address and the IPv6 loopback address. A parsed IPv6 address is its eight 16-bit parts.
  Every other string counts as invalid here.
\<close>

definition ipaddr_sample :: "nat list ipaddr" where
  "ipaddr_sample =
     \<lparr> IPv4_isValid = (\<lambda>s. s = ''1.2.3.4''),
       IPv6_isValid = (\<lambda>s. s = ''::ffff:1.2.3.4'' \<or> s = ''::1''),
       IPv6_parse = (\<lambda>s. if s = ''::ffff:1.2.3.4'' then [0, 0, 0, 0, 0, 65535, 258, 772]
                          else if s = ''::1'' then [0, 0, 0, 0, 0, 0, 0, 1] else []),
       isIPv4MappedAddress = (\<lambda>ip. take 6 ip = [0, 0, 0, 0, 0, 65535]),
       toIPv4AddressString = (\<lambda>ip. if ip = [0, 0, 0, 0, 0, 65535, 258, 772] then ''1.2.3.4'' else []),
       toNormalizedString = (\<lambda>ip. if ip = [0, 0, 0, 0, 0, 0, 0, 1] then ''0:0:0:0:0:0:0:1'' else []) \<rparr>"

definition no_options :: options where
  "no_options = \<lparr> opt_maxTcpSockets = None, opt_socketTimeout = None \<rparr>"

text \<open>A started agent with one idle socket in the pool.\<close>

definition agent_idle :: agent where
  "agent_idle = run ipaddr_sample [Listen, Connection ''1.2.3.4''] (new_agent no_options)"

text \<open>An agent limited to one socket, with that socket connected and idle.\<close>

definition one_socket :: options where
  "one_socket = \<lparr> opt_maxTcpSockets = Some 1, opt_socketTimeout = None \<rparr>"

definition agent_full :: agent where
  "agent_full = run ipaddr_sample [Listen, Connection ''1.2.3.4''] (new_agent one_socket)"

text \<open>A started agent, and a started agent with callback 1 waiting.\<close>

definition agent_started :: agent where
  "agent_started = run ipaddr_sample [Listen] (new_agent no_options)"

definition agent_one_waiting :: agent where
  "agent_one_waiting = run ipaddr_sample [Listen, CreateConnection 1] (new_agent no_options)"

subsection \<open>Notions used in the proofs\<close>

text \<open>
  The address list after an admission (lines 175 to 178), the sockets whose \<open>'close'\<close>
  handler is registered, and the bookkeeping invariant of the agent: the counter equals the
  number of registered \<open>'close'\<close> handlers; no socket object is in two places; every idle
  socket is connected; every connected socket is idle or was handed out; every socket known to
  the agent was numbered by the listener.
\<close>

definition recordedIps :: "'ip ipaddr \<Rightarrow> socket \<Rightarrow> agent \<Rightarrow> string list" where
  "recordedIps lib s a =
     (case agentIpOf lib (remoteAddress s) of
        None \<Rightarrow> agentIps a
      | Some ip \<Rightarrow> pushIp ip (agentIps a))"

definition closeHandlers :: "agent \<Rightarrow> socket list" where
  "closeHandlers a = map fst (filter (\<lambda>h. snd h = Close) (handlers a))"

definition agent_inv :: "agent \<Rightarrow> bool" where
  "agent_inv a \<longleftrightarrow>
     connectedSockets a = int (length (closeHandlers a)) \<and>
     distinct (closeHandlers a) \<and>
     distinct (availableSockets a @ handedOut a) \<and>
     set (availableSockets a) \<subseteq> set (closeHandlers a) \<and>
     set (closeHandlers a) \<subseteq> set (availableSockets a) \<union> set (handedOut a) \<and>
     (\<forall>s \<in> set (closeHandlers a) \<union> set (availableSockets a) \<union> set (handedOut a).
        sid s < nextSocket a)"

section \<open>Properties\<close>

subsection \<open>Effects of the handlers, field by field\<close>

lemmas handler_defs = onSocketEvent_def onSocketClose_def onSocketTimeout_def onSocketError_def

lemmas op_defs = step_def listen_agent_def onConnection_def createConnection_def fireTimer_def
  onClose_def destroy_def handler_defs

lemma onConnection_admitted:
  assumes "connectedSockets a < int (maxTcpSockets a)"
  shows "onConnection lib s a =
     a\<lparr> idleTimeouts := idleTimeouts a @ [(s, socketTimeout a)],
        handlers := handlers a @ [(s, Timeout), (s, Close), (s, SockError)],
        emitted := (if connectedSockets a = 0 then emitted a @ [Online] else emitted a),
        agentIps := recordedIps lib s a,
        connectedSockets := connectedSockets a + 1,
        waitingCreateConn := tl (waitingCreateConn a),
        timers := (case waitingCreateConn a of [] \<Rightarrow> timers a | fn # rest \<Rightarrow> timers a @ [(fn, s)]),
        availableSockets := (case waitingCreateConn a of [] \<Rightarrow> availableSockets a @ [s]
                             | fn # rest \<Rightarrow> availableSockets a) \<rparr>"
proof (cases "agentIpOf lib (remoteAddress s)")
  case None
  with assms show ?thesis
    by (cases "waitingCreateConn a")
       (simp_all add: onConnection_def recordedIps_def pushIp_def Let_def)
next
  case (Some ip)
  with assms show ?thesis
    by (cases "waitingCreateConn a")
       (simp_all add: onConnection_def recordedIps_def pushIp_def Let_def)
qed

lemma onConnection_rejected:
  assumes "int (maxTcpSockets a) \<le> connectedSockets a"
  shows "onConnection lib s a =
     a\<lparr> idleTimeouts := idleTimeouts a @ [(s, socketTimeout a)],
        destroyed := destroyed a @ [s] \<rparr>"
  using assms by (simp add: onConnection_def)

lemma connected_iff: "connected a s \<longleftrightarrow> s \<in> set (closeHandlers a)"
  by (force simp: connected_def closeHandlers_def)

lemma filter_remove1_other:
  "\<not> P x \<Longrightarrow> filter P (remove1 x xs) = filter P xs"
  by (induction xs) auto

lemma close_remove1:
  "map fst (filter (\<lambda>h. snd h = Close) (remove1 (s, Close) hs)) =
   remove1 s (map fst (filter (\<lambda>h. snd h = Close) hs))"
  by (induction hs) auto

lemma concat_delivered_failed:
  "concat (map (delivered \<circ> (\<lambda>cb. (cb, Failed e))) ws) = []"
  by (induction ws) auto

lemma inv_count:
  assumes "agent_inv a"
  shows "length (closeHandlers a) = length (availableSockets a) + length (checkedOut a)"
proof -
  let ?C = "closeHandlers a" and ?A = "availableSockets a" and ?H = "handedOut a"
  have "connected a = (\<lambda>s. s \<in> set ?C)"
    by (simp add: fun_eq_iff connected_iff)
  then have co: "checkedOut a = filter (\<lambda>s. s \<in> set ?C) ?H"
    by (simp add: checkedOut_def)
  from assms have dC: "distinct ?C" and dA: "distinct ?A" and dH: "distinct ?H"
    and disj: "set ?A \<inter> set ?H = {}" and sub: "set ?A \<subseteq> set ?C"
    and cov: "set ?C \<subseteq> set ?A \<union> set ?H"
    by (auto simp: agent_inv_def)
  have "set ?C = set ?A \<union> set (checkedOut a)"
    using sub cov by (auto simp: co)
  moreover have "set ?A \<inter> set (checkedOut a) = {}"
    using disj by (auto simp: co)
  ultimately have "card (set ?C) = card (set ?A) + card (set (checkedOut a))"
    by (simp add: card_Un_disjoint)
  moreover have "distinct (checkedOut a)" using dH by (simp add: co)
  ultimately show ?thesis using dC dA by (simp add: distinct_card)
qed

lemma inv_new: "agent_inv (new_agent opts)"
  by (simp add: agent_inv_def new_agent_def closeHandlers_def handedOut_def)

lemma inv_listen: "agent_inv a \<Longrightarrow> agent_inv (step lib Listen a)"
  by (simp add: agent_inv_def op_defs closeHandlers_def handedOut_def)

lemma inv_destroy: "agent_inv a \<Longrightarrow> agent_inv (step lib Destroy a)"
  by (simp add: agent_inv_def op_defs closeHandlers_def handedOut_def)

lemma inv_close: "agent_inv a \<Longrightarrow> agent_inv (step lib ListenerClose a)"
  by (simp add: agent_inv_def op_defs closeHandlers_def handedOut_def Let_def concat_delivered_failed)

lemma handedOut_fireTimer: "handedOut (fireTimer a) = handedOut a"
  by (auto simp: fireTimer_def handedOut_def split: list.splits)

lemma closeHandlers_fireTimer: "closeHandlers (fireTimer a) = closeHandlers a"
  by (auto simp: fireTimer_def closeHandlers_def split: list.splits)

lemma fields_fireTimer:
  "availableSockets (fireTimer a) = availableSockets a"
  "connectedSockets (fireTimer a) = connectedSockets a"
  "nextSocket (fireTimer a) = nextSocket a"
  by (auto simp: fireTimer_def split: list.splits)

lemma inv_timer: "agent_inv a \<Longrightarrow> agent_inv (step lib TimerFires a)"
  by (simp add: agent_inv_def step_def handedOut_fireTimer closeHandlers_fireTimer fields_fireTimer)

lemma closeHandlers_create: "closeHandlers (createConnection cb a) = closeHandlers a"
  by (auto simp: createConnection_def closeHandlers_def split: list.splits)

lemma fields_create:
  "connectedSockets (createConnection cb a) = connectedSockets a"
  "nextSocket (createConnection cb a) = nextSocket a"
  by (auto simp: createConnection_def split: list.splits)

lemma pool_create:
  "set (availableSockets (createConnection cb a)) \<union> set (handedOut (createConnection cb a)) =
   set (availableSockets a) \<union> set (handedOut a)"
  by (auto simp: createConnection_def handedOut_def split: list.splits)

lemma avail_create:
  "set (availableSockets (createConnection cb a)) \<subseteq> set (availableSockets a)"
  by (auto simp: createConnection_def split: list.splits)

lemma distinct_move:
  "distinct ((s # rest) @ dc @ ts) \<Longrightarrow> distinct (rest @ (dc @ [s]) @ ts)"
  by auto

lemma distinct_create:
  assumes "distinct (availableSockets a @ handedOut a)"
  shows "distinct (availableSockets (createConnection cb a) @ handedOut (createConnection cb a))"
proof (cases "closed a \<or> availableSockets a = []")
  case True
  then have "availableSockets (createConnection cb a) = availableSockets a"
    and "handedOut (createConnection cb a) = handedOut a"
    by (auto simp: createConnection_def handedOut_def)
  with assms show ?thesis by simp
next
  case False
  then obtain s rest where av: "availableSockets a = s # rest" and op: "\<not> closed a"
    by (cases "availableSockets a") auto
  have "availableSockets (createConnection cb a) = rest"
    and "handedOut (createConnection cb a) =
         (concat (map delivered (calls a)) @ [s]) @ map snd (timers a)"
    using av op by (simp_all add: createConnection_def handedOut_def)
  moreover have "distinct ((s # rest) @ concat (map delivered (calls a)) @ map snd (timers a))"
    using assms av by (simp add: handedOut_def)
  ultimately show ?thesis
    using distinct_move [of s rest "concat (map delivered (calls a))" "map snd (timers a)"]
    by simp
qed

lemma inv_create:
  assumes "agent_inv a"
  shows "agent_inv (step lib (CreateConnection cb) a)"
proof -
  let ?b = "createConnection cb a"
  have "distinct (availableSockets ?b @ handedOut ?b)"
    using assms by (intro distinct_create) (simp add: agent_inv_def)
  moreover have "set (availableSockets ?b) \<subseteq> set (closeHandlers ?b)"
    using assms avail_create [of cb a] by (auto simp: agent_inv_def closeHandlers_create)
  moreover have "set (closeHandlers ?b) \<subseteq> set (availableSockets ?b) \<union> set (handedOut ?b)"
    using assms by (simp add: agent_inv_def closeHandlers_create pool_create)
  moreover have "\<forall>s \<in> set (closeHandlers ?b) \<union> (set (availableSockets ?b) \<union> set (handedOut ?b)).
        sid s < nextSocket ?b"
    using assms unfolding pool_create closeHandlers_create fields_create
    by (auto simp: agent_inv_def)
  ultimately show ?thesis
    using assms by (simp add: agent_inv_def step_def closeHandlers_create fields_create Un_assoc)
qed

lemma inv_same:
  assumes "agent_inv a"
    and "closeHandlers b = closeHandlers a"
    and "availableSockets b = availableSockets a"
    and "handedOut b = handedOut a"
    and "connectedSockets b = connectedSockets a"
    and "nextSocket a \<le> nextSocket b"
  shows "agent_inv b"
proof -
  from assms(1) have "\<forall>s \<in> set (closeHandlers a) \<union> set (availableSockets a) \<union> set (handedOut a).
        sid s < nextSocket a"
    by (simp add: agent_inv_def)
  with assms(6) have "\<forall>s \<in> set (closeHandlers a) \<union> set (availableSockets a) \<union> set (handedOut a).
        sid s < nextSocket b"
    by (meson less_le_trans)
  with assms(1) show ?thesis
    unfolding agent_inv_def assms(2-5) by blast
qed

lemma inv_socket_other:
  assumes "agent_inv a" and "e \<noteq> Close"
  shows "agent_inv (step lib (SocketEvent s e) a)"
  using assms(2)
  by (intro inv_same [OF assms(1)]; cases e)
     (simp_all add: step_def handler_defs closeHandlers_def handedOut_def filter_remove1_other)

lemma inv_socket_close:
  assumes "agent_inv a"
  shows "agent_inv (step lib (SocketEvent s Close) a)"
proof (cases "(s, Close) \<in> set (handlers a)")
  case False
  with assms show ?thesis by (simp add: step_def)
next
  case True
  let ?b = "step lib (SocketEvent s Close) a"
  have ch: "closeHandlers ?b = remove1 s (closeHandlers a)"
    and av: "availableSockets ?b = remove1 s (availableSockets a)"
    and ho: "handedOut ?b = handedOut a"
    and cs: "connectedSockets ?b = connectedSockets a - 1"
    and nx: "nextSocket ?b = nextSocket a"
    using True
    by (simp_all add: step_def handler_defs closeHandlers_def handedOut_def Let_def close_remove1)
  have mem: "s \<in> set (closeHandlers a)"
    using True by (force simp: closeHandlers_def)
  from assms have dC: "distinct (closeHandlers a)" and dA: "distinct (availableSockets a)"
    and dAH: "distinct (availableSockets a @ handedOut a)"
    and sub: "set (availableSockets a) \<subseteq> set (closeHandlers a)"
    and cov: "set (closeHandlers a) \<subseteq> set (availableSockets a) \<union> set (handedOut a)"
    and fresh: "\<forall>x \<in> set (closeHandlers a) \<union> set (availableSockets a) \<union> set (handedOut a).
                  sid x < nextSocket a"
    and cnt: "connectedSockets a = int (length (closeHandlers a))"
    by (auto simp: agent_inv_def)
  have "connectedSockets ?b = int (length (closeHandlers ?b))"
    using cnt mem by (simp add: ch cs length_remove1) (cases "closeHandlers a", auto)
  moreover have "distinct (closeHandlers ?b)"
    using dC by (simp add: ch)
  moreover have "distinct (availableSockets ?b @ handedOut ?b)"
    using dAH by (auto simp: av ho dest: notin_set_remove1)
  moreover have "set (availableSockets ?b) \<subseteq> set (closeHandlers ?b)"
    using sub dC dA by (auto simp: av ch)
  moreover have "set (closeHandlers ?b) \<subseteq> set (availableSockets ?b) \<union> set (handedOut ?b)"
    using cov dC dA by (auto simp: av ch ho)
  moreover have "\<forall>x \<in> set (closeHandlers ?b) \<union> set (availableSockets ?b) \<union> set (handedOut ?b).
                  sid x < nextSocket ?b"
    using fresh dC dA by (auto simp: av ch ho nx)
  ultimately show ?thesis
    unfolding agent_inv_def by blast
qed

lemma inv_socket: "agent_inv a \<Longrightarrow> agent_inv (step lib (SocketEvent s e) a)"
  by (cases "e = Close") (simp_all add: inv_socket_close inv_socket_other)

lemma inv_connection:
  assumes "agent_inv a"
  shows "agent_inv (step lib (Connection addr) a)"
proof (cases "listening a \<and> connectedSockets a < int (maxTcpSockets a)")
  case False
  then show ?thesis
    by (intro inv_same [OF assms])
       (auto simp: step_def onConnection_def closeHandlers_def handedOut_def)
next
  case True
  let ?n = "Socket (nextSocket a) addr"
  let ?b = "step lib (Connection addr) a"
  from assms have dC: "distinct (closeHandlers a)"
    and dAH: "distinct (availableSockets a @ handedOut a)"
    and sub: "set (availableSockets a) \<subseteq> set (closeHandlers a)"
    and cov: "set (closeHandlers a) \<subseteq> set (availableSockets a) \<union> set (handedOut a)"
    and fresh: "\<forall>x \<in> set (closeHandlers a) \<union> set (availableSockets a) \<union> set (handedOut a).
                  sid x < nextSocket a"
    and cnt: "connectedSockets a = int (length (closeHandlers a))"
    by (auto simp: agent_inv_def)
  have new: "?n \<notin> set (closeHandlers a) \<union> set (availableSockets a) \<union> set (handedOut a)"
  proof
    assume "?n \<in> set (closeHandlers a) \<union> set (availableSockets a) \<union> set (handedOut a)"
    with fresh have "sid ?n < nextSocket a" by blast
    then show False by simp
  qed
  have adm: "connectedSockets (a\<lparr>nextSocket := Suc (nextSocket a)\<rparr>)
               < int (maxTcpSockets (a\<lparr>nextSocket := Suc (nextSocket a)\<rparr>))"
    using True by simp
  have st: "?b = onConnection lib ?n (a\<lparr>nextSocket := Suc (nextSocket a)\<rparr>)"
    using True by (simp add: step_def)
  have ch: "closeHandlers ?b = closeHandlers a @ [?n]"
    and cs: "connectedSockets ?b = connectedSockets a + 1"
    and nx: "nextSocket ?b = Suc (nextSocket a)"
    unfolding st onConnection_admitted [OF adm] by (simp_all add: closeHandlers_def)
  have pool: "(availableSockets ?b = availableSockets a @ [?n] \<and> handedOut ?b = handedOut a) \<or>
              (availableSockets ?b = availableSockets a \<and> handedOut ?b = handedOut a @ [?n])"
    unfolding st onConnection_admitted [OF adm]
    by (cases "waitingCreateConn a") (simp_all add: handedOut_def)
  have "connectedSockets ?b = int (length (closeHandlers ?b))"
    using cnt by (simp add: ch cs)
  moreover have "distinct (closeHandlers ?b)"
    using dC new by (simp add: ch)
  moreover have "distinct (availableSockets ?b @ handedOut ?b)"
    using dAH new pool by auto
  moreover have "set (availableSockets ?b) \<subseteq> set (closeHandlers ?b)"
    using sub pool by (auto simp: ch)
  moreover have "set (closeHandlers ?b) \<subseteq> set (availableSockets ?b) \<union> set (handedOut ?b)"
    using cov pool by (auto simp: ch)
  moreover have "\<forall>x \<in> set (closeHandlers ?b) \<union> set (availableSockets ?b) \<union> set (handedOut ?b).
                  sid x < nextSocket ?b"
    using fresh pool by (auto simp: ch nx less_Suc_eq)
  ultimately show ?thesis
    unfolding agent_inv_def by blast
qed

lemma inv_step: "agent_inv a \<Longrightarrow> agent_inv (step lib ev a)"
  by (cases ev)
     (simp_all add: inv_listen inv_connection inv_socket inv_timer inv_create inv_close inv_destroy)

lemma inv_run: "agent_inv a \<Longrightarrow> agent_inv (run lib evs a)"
  by (induction evs arbitrary: a) (simp_all add: inv_step)

subsection \<open>The ceiling and the two queues along a run\<close>

lemma step_max: "maxTcpSockets (step lib ev a) = maxTcpSockets a"
  by (cases ev) (auto simp: op_defs Let_def split: list.splits option.splits sock_event.splits)

lemma run_max: "maxTcpSockets (run lib evs a) = maxTcpSockets a"
  by (induction evs arbitrary: a) (simp_all add: step_max)

lemma step_ceiling:
  "connectedSockets a \<le> int (maxTcpSockets a) \<Longrightarrow>
   connectedSockets (step lib ev a) \<le> int (maxTcpSockets a)"
  by (cases ev) (auto simp: op_defs Let_def split: list.splits option.splits sock_event.splits)

lemma run_ceiling:
  "connectedSockets a \<le> int (maxTcpSockets a) \<Longrightarrow>
   connectedSockets (run lib evs a) \<le> int (maxTcpSockets a)"
proof (induction evs arbitrary: a)
  case Nil
  then show ?case by simp
next
  case (Cons ev evs)
  from Cons.prems have "connectedSockets (step lib ev a) \<le> int (maxTcpSockets (step lib ev a))"
    by (simp add: step_ceiling step_max)
  from Cons.IH [OF this] show ?case by (simp add: step_max)
qed

lemma step_queues:
  "availableSockets a = [] \<or> waitingCreateConn a = [] \<Longrightarrow>
   availableSockets (step lib ev a) = [] \<or> waitingCreateConn (step lib ev a) = []"
  by (cases ev) (auto simp: op_defs Let_def split: list.splits option.splits sock_event.splits)

lemma run_queues:
  "availableSockets a = [] \<or> waitingCreateConn a = [] \<Longrightarrow>
   availableSockets (run lib evs a) = [] \<or> waitingCreateConn (run lib evs a) = []"
  by (induction evs arbitrary: a) (simp_all add: step_queues)

subsection \<open>The sample agents, evaluated\<close>

lemmas sample_defs = new_agent_def no_options_def one_socket_def or_default_def
  DEFAULT_MAX_SOCKETS_def DEFAULT_SOCKET_TIMEOUT_def ipaddr_sample_def agentIpOf_def

lemma agent_full_fields:
  "connectedSockets agent_full = 1" "maxTcpSockets agent_full = 1"
  "availableSockets agent_full = [Socket 0 ''1.2.3.4'']"
  "waitingCreateConn agent_full = []" "agentIps agent_full = [''1.2.3.4'']"
  "destroyed agent_full = []" "timers agent_full = []"
  by (simp_all add: agent_full_def sample_defs step_def listen_agent_def onConnection_def)

subsection \<open>Sequences of admissions, checkouts and timers\<close>

lemma createConnection_closed:
  "closed a \<Longrightarrow> createConnection cb a = a\<lparr>calls := calls a @ [(cb, Failed Closed)]\<rparr>"
  by (simp add: createConnection_def)








subsection \<open>What never changes back\<close>

lemma step_closed: "closed a \<Longrightarrow> closed (step lib ev a)"
  by (cases ev) (auto simp: op_defs Let_def split: list.splits option.splits sock_event.splits)

lemma run_closed: "closed a \<Longrightarrow> closed (run lib evs a)"
  by (induction evs arbitrary: a) (simp_all add: step_closed)

lemma step_started: "started a \<Longrightarrow> started (step lib ev a)"
  by (cases ev) (auto simp: op_defs Let_def split: list.splits option.splits sock_event.splits)

lemma run_started: "started a \<Longrightarrow> started (run lib evs a)"
  by (induction evs arbitrary: a) (simp_all add: step_started)

lemma step_shut:
  assumes "started a" and "\<not> listening a"
  shows "started (step lib ev a) \<and> \<not> listening (step lib ev a) \<and>
         set (handlers (step lib ev a)) \<subseteq> set (handlers a) \<and>
         connectedSockets (step lib ev a) \<le> connectedSockets a"
  using assms
  by (cases ev)
     (auto simp: step_def listen_agent_def createConnection_def fireTimer_def onClose_def
        destroy_def handler_defs Let_def
        split: list.splits sock_event.splits dest: set_remove1_subset [THEN subsetD])

lemma run_shut:
  "started a \<Longrightarrow> \<not> listening a \<Longrightarrow>
   \<not> listening (run lib evs a) \<and>
   set (handlers (run lib evs a)) \<subseteq> set (handlers a) \<and>
   connectedSockets (run lib evs a) \<le> connectedSockets a"
proof (induction evs arbitrary: a)
  case Nil
  then show ?case by simp
next
  case (Cons ev evs)
  from step_shut [OF Cons.prems, of lib ev]
  have st: "started (step lib ev a)" "\<not> listening (step lib ev a)"
    and sub: "set (handlers (step lib ev a)) \<subseteq> set (handlers a)"
    and le: "connectedSockets (step lib ev a) \<le> connectedSockets a"
    by simp_all
  from Cons.IH [OF st] sub le show ?case by auto
qed

text \<open>
  \<open>listen()\<close> leaves the agent started. Before it, no handler is registered on the
  listener, and a close event of the listener changes nothing.
\<close>

lemma started_after_listen: "started (step lib Listen a)"
  by (simp add: step_def listen_agent_def)

lemma listener_close_unstarted: "\<not> started a \<Longrightarrow> step lib ListenerClose a = a"
  by (simp add: step_def)

subsection \<open>More sample agents, evaluated\<close>

lemma agent_idle_eval:
  "agent_idle =
     \<lparr> availableSockets = [Socket 0 ''1.2.3.4''], waitingCreateConn = [], connectedSockets = 1,
       maxTcpSockets = 10, socketTimeout = 60000, started = True, closed = False,
       agentIps = [''1.2.3.4''], listening = True, nextSocket = 1,
       handlers = [(Socket 0 ''1.2.3.4'', Timeout), (Socket 0 ''1.2.3.4'', Close),
                   (Socket 0 ''1.2.3.4'', SockError)],
       idleTimeouts = [(Socket 0 ''1.2.3.4'', 60000)], destroyed = [], timers = [], calls = [],
       emitted = [Online] \<rparr>"
  by (simp add: agent_idle_def sample_defs op_defs)

lemma agent_started_eval:
  "agent_started =
     \<lparr> availableSockets = [], waitingCreateConn = [], connectedSockets = 0,
       maxTcpSockets = 10, socketTimeout = 60000, started = True, closed = False,
       agentIps = [], listening = True, nextSocket = 0,
       handlers = [], idleTimeouts = [], destroyed = [], timers = [], calls = [],
       emitted = [] \<rparr>"
  by (simp add: agent_started_def sample_defs op_defs)

lemma agent_one_waiting_eval:
  "agent_one_waiting =
     \<lparr> availableSockets = [], waitingCreateConn = [1], connectedSockets = 0,
       maxTcpSockets = 10, socketTimeout = 60000, started = True, closed = False,
       agentIps = [], listening = True, nextSocket = 0,
       handlers = [], idleTimeouts = [], destroyed = [], timers = [], calls = [],
       emitted = [] \<rparr>"
  by (simp add: agent_one_waiting_def sample_defs op_defs)

subsection \<open>The claims\<close>

text \<open>
  C7. The listener's close event reaches \<open>_onClose\<close> through the registration that
  \<open>listen()\<close> makes, so the agent is started from \<open>listen()\<close> on, whatever happens
  next. On a started agent the listener's close event runs the close cascade: the closed flag
  is set, every callback waiting in the queue is called with the \<open>closed\<close> error (in queue
  order, after the calls made before), the queue is left empty and \<open>end\<close> is emitted.
\<close>

theorem close_cascade:
  "started (run lib evs (step lib Listen a0)) \<and>
   (started a \<longrightarrow>
      step lib ListenerClose a = onClose a \<and>
      closed (step lib ListenerClose a) \<and>
      calls (step lib ListenerClose a) =
        calls a @ map (\<lambda>cb. (cb, Failed Closed)) (waitingCreateConn a) \<and>
      waitingCreateConn (step lib ListenerClose a) = [] \<and>
      emitted (step lib ListenerClose a) = emitted a @ [End])"
proof -
  have "started (run lib evs (step lib Listen a0))"
    by (rule run_started) (rule started_after_listen)
  then show ?thesis
    by (simp add: step_def onClose_def)
qed

text \<open>A started agent with callback 1 waiting when its listener closes.\<close>

theorem close_cascade_witness:
  "started agent_one_waiting \<and>
   waitingCreateConn agent_one_waiting = [1] \<and>
   closed (step ipaddr_sample ListenerClose agent_one_waiting) \<and>
   calls (step ipaddr_sample ListenerClose agent_one_waiting) = [(1, Failed Closed)] \<and>
   waitingCreateConn (step ipaddr_sample ListenerClose agent_one_waiting) = [] \<and>
   emitted (step ipaddr_sample ListenerClose agent_one_waiting) = [End]"
  using close_cascade [of ipaddr_sample "[CreateConnection 1]" "new_agent no_options"
      agent_one_waiting]
  by (simp add: agent_one_waiting_eval step_def onClose_def)

text \<open>
  C3. Along every run of an agent from its construction, after every step (admission,
  over-budget rejection, checkout, deferred hand-over, socket event, listener close, destroy),
  \<open>connectedSockets\<close> is the number of idle sockets in \<open>availableSockets\<close> plus the number
  of connected sockets held by consumers, and it is not negative. A socket counts as held by a
  consumer from the moment the agent binds it to a callback, which for a waiting callback is
  the admission that arms the zero-delay timer.
\<close>

theorem socket_accounting:
  "connectedSockets (run lib evs (new_agent opts)) =
     int (length (availableSockets (run lib evs (new_agent opts))) +
          length (checkedOut (run lib evs (new_agent opts)))) \<and>
   0 \<le> connectedSockets (run lib evs (new_agent opts))"
proof -
  have inv: "agent_inv (run lib evs (new_agent opts))"
    by (rule inv_run) (rule inv_new)
  then have "connectedSockets (run lib evs (new_agent opts)) =
             int (length (closeHandlers (run lib evs (new_agent opts))))"
    by (simp add: agent_inv_def)
  with inv_count [OF inv] show ?thesis by simp
qed

text \<open>
  C4. Along every run of an agent from its construction, after every step, the queue of idle
  sockets and the queue of waiting callbacks are not both non-empty.
\<close>

theorem queues_never_both:
  "availableSockets (run lib evs (new_agent opts)) = [] \<or>
   waitingCreateConn (run lib evs (new_agent opts)) = []"
  by (rule run_queues) (simp add: new_agent_def)

text \<open>
  C5. Along every run of an agent from its construction, \<open>connectedSockets\<close> never exceeds
  the ceiling \<open>maxTcpSockets\<close> fixed by the constructor. A connection that arrives while
  \<open>connectedSockets >= maxTcpSockets\<close> is destroyed at once; the counter, both queues and
  the address list stay as they were, and neither a socket handler nor a timer is added.
\<close>

theorem socket_ceiling:
  "connectedSockets (run lib evs (new_agent opts)) \<le> int (maxTcpSockets (new_agent opts)) \<and>
   maxTcpSockets (run lib evs (new_agent opts)) = maxTcpSockets (new_agent opts) \<and>
   (int (maxTcpSockets a) \<le> connectedSockets a \<longrightarrow>
      destroyed (onConnection lib s a) = destroyed a @ [s] \<and>
      connectedSockets (onConnection lib s a) = connectedSockets a \<and>
      availableSockets (onConnection lib s a) = availableSockets a \<and>
      waitingCreateConn (onConnection lib s a) = waitingCreateConn a \<and>
      agentIps (onConnection lib s a) = agentIps a \<and>
      handlers (onConnection lib s a) = handlers a \<and>
      timers (onConnection lib s a) = timers a)"
proof -
  have "connectedSockets (new_agent opts) \<le> int (maxTcpSockets (new_agent opts))"
    by (simp add: new_agent_def)
  then have "connectedSockets (run lib evs (new_agent opts)) \<le> int (maxTcpSockets (new_agent opts))"
    by (rule run_ceiling)
  then show ?thesis
    by (simp add: run_max onConnection_rejected)
qed

text \<open>
  The ceiling at work: an agent limited to one socket holds one; a second client dials in.
\<close>

theorem socket_ceiling_witness:
  "connectedSockets
     (run ipaddr_sample [Listen, Connection ''1.2.3.4'', Connection ''::1''] (new_agent one_socket))
     \<le> 1 \<and>
   int (maxTcpSockets agent_full) \<le> connectedSockets agent_full \<and>
   destroyed (onConnection ipaddr_sample (Socket 1 ''::1'') agent_full) = [Socket 1 ''::1''] \<and>
   connectedSockets (onConnection ipaddr_sample (Socket 1 ''::1'') agent_full) = 1 \<and>
   availableSockets (onConnection ipaddr_sample (Socket 1 ''::1'') agent_full) = [Socket 0 ''1.2.3.4''] \<and>
   waitingCreateConn (onConnection ipaddr_sample (Socket 1 ''::1'') agent_full) = [] \<and>
   agentIps (onConnection ipaddr_sample (Socket 1 ''::1'') agent_full) = [''1.2.3.4'']"
  using socket_ceiling [of ipaddr_sample "[Listen, Connection ''1.2.3.4'', Connection ''::1'']"
      one_socket agent_full "Socket 1 ''::1''"]
  by (simp add: agent_full_fields) (simp add: sample_defs)




text \<open>
  C2, as amended. \<open>destroy()\<close> does not touch \<open>closed\<close>, and a \<open>createConnection\<close>
  right after it is served or parked exactly as before it. On a started agent, once the
  listener's close event has run the close cascade after \<open>destroy()\<close>, whatever happens
  before and after it, every \<open>createConnection\<close> fails in the same call with the
  \<open>closed\<close> error; and from \<open>destroy()\<close> on the listener no longer accepts, so no
  socket gets a handler registered and \<open>connectedSockets\<close> does not grow.
\<close>

theorem destroy_then_close:
  "closed (destroy a) = closed a \<and>
   createConnection cb (destroy a) = destroy (createConnection cb a) \<and>
   (started a \<longrightarrow>
      closed (run lib evs' (step lib ListenerClose (run lib evs (destroy a)))) \<and>
      createConnection cb (run lib evs' (step lib ListenerClose (run lib evs (destroy a)))) =
        (run lib evs' (step lib ListenerClose (run lib evs (destroy a))))
          \<lparr>calls := calls (run lib evs' (step lib ListenerClose (run lib evs (destroy a)))) @
                     [(cb, Failed Closed)]\<rparr> \<and>
      \<not> listening (run lib evs (destroy a)) \<and>
      set (handlers (run lib evs (destroy a))) \<subseteq> set (handlers a) \<and>
      connectedSockets (run lib evs (destroy a)) \<le> connectedSockets a)"
proof -
  have d: "closed (destroy a) = closed a"
    "createConnection cb (destroy a) = destroy (createConnection cb a)"
    by (auto simp: destroy_def createConnection_def split: list.splits)
  {
    assume st: "started a"
    then have sd: "started (destroy a)" and nl: "\<not> listening (destroy a)"
      by (simp_all add: destroy_def)
    from sd have "started (run lib evs (destroy a))" by (rule run_started)
    then have "closed (step lib ListenerClose (run lib evs (destroy a)))"
      by (simp add: step_def onClose_def)
    then have cl: "closed (run lib evs' (step lib ListenerClose (run lib evs (destroy a))))"
      by (rule run_closed)
    note cl createConnection_closed [OF cl, of cb] run_shut [OF sd nl, of lib evs]
  }
  with d show ?thesis by (simp add: destroy_def)
qed

text \<open>
  A destroyed agent with one idle socket: a client that dials in is not admitted, the idle
  socket closes, the listener's close event arrives, and a later \<open>createConnection\<close> fails.
\<close>

theorem destroy_then_close_witness:
  "started agent_idle \<and>
   closed (run ipaddr_sample [] (step ipaddr_sample ListenerClose
     (run ipaddr_sample [Connection ''::1'', SocketEvent (Socket 0 ''1.2.3.4'') Close]
        (destroy agent_idle)))) \<and>
   calls (createConnection 9 (run ipaddr_sample [] (step ipaddr_sample ListenerClose
     (run ipaddr_sample [Connection ''::1'', SocketEvent (Socket 0 ''1.2.3.4'') Close]
        (destroy agent_idle))))) = [(9, Failed Closed)] \<and>
   connectedSockets
     (run ipaddr_sample [Connection ''::1'', SocketEvent (Socket 0 ''1.2.3.4'') Close]
        (destroy agent_idle)) = 0 \<and>
   calls (createConnection 9 (destroy agent_idle)) = calls (destroy (createConnection 9 agent_idle))"
  using destroy_then_close [of agent_idle 9 ipaddr_sample "[]"
      "[Connection ''::1'', SocketEvent (Socket 0 ''1.2.3.4'') Close]"]
  by (simp add: agent_idle_eval op_defs)

text \<open>
  C2 as stated fails: right after \<open>destroy()\<close> the agent is not closed, and
  \<open>createConnection\<close> hands out the idle socket instead of failing.
\<close>

theorem destroy_counterexample:
  "\<not> closed (destroy agent_idle) \<and>
   calls (createConnection 7 (destroy agent_idle)) = [(7, Delivered (Socket 0 ''1.2.3.4''))]"
  by (simp add: agent_idle_def sample_defs step_def listen_agent_def onConnection_def
        destroy_def createConnection_def)

text \<open>
  C10. The close cascade leaves \<open>availableSockets\<close> as it is and destroys no socket (no
  handler and no counter changes either). A \<open>createConnection\<close> on a closed agent only
  calls the callback with the \<open>closed\<close> error: it takes no idle socket and leaves
  \<open>waitingCreateConn\<close> as it is.
\<close>

theorem closed_paths_frame:
  "availableSockets (onClose a) = availableSockets a \<and>
   destroyed (onClose a) = destroyed a \<and>
   handlers (onClose a) = handlers a \<and>
   connectedSockets (onClose a) = connectedSockets a \<and>
   (closed a \<longrightarrow>
      createConnection cb a = a\<lparr>calls := calls a @ [(cb, Failed Closed)]\<rparr> \<and>
      availableSockets (createConnection cb a) = availableSockets a \<and>
      waitingCreateConn (createConnection cb a) = waitingCreateConn a \<and>
      destroyed (createConnection cb a) = destroyed a)"
  by (simp add: onClose_def createConnection_def)

text \<open>An agent closed while a socket is idle, then asked for a connection.\<close>

theorem closed_paths_frame_witness:
  "availableSockets (onClose agent_idle) = [Socket 0 ''1.2.3.4''] \<and>
   destroyed (onClose agent_idle) = [] \<and>
   closed (onClose agent_idle) \<and>
   calls (createConnection 5 (onClose agent_idle)) = [(5, Failed Closed)] \<and>
   availableSockets (createConnection 5 (onClose agent_idle)) = [Socket 0 ''1.2.3.4''] \<and>
   waitingCreateConn (createConnection 5 (onClose agent_idle)) = []"
  using closed_paths_frame [of agent_idle 5] closed_paths_frame [of "onClose agent_idle" 5]
  by (simp add: agent_idle_eval onClose_def)



text \<open>
  C8. On the first \<open>listen()\<close> of the process, when the lookup's \<open>fetch\<close> rejects, the
  promise returned by \<open>listen()\<close> never settles: the port is never returned. A lookup that
  answers with a non-OK status is handled as the claim says, the port is returned without
  \<open>publicIp\<close>; a lookup that succeeds returns the port with the trimmed address.
\<close>

theorem listen_lookup_rejected:
  "fst (listen bound FetchRejected (None, new_agent opts)) = Inr NeverSettled \<and>
   fst (listen bound (FetchResponse False body) (None, new_agent opts)) =
     Inr (Resolved \<lparr>port = bound, publicIp = None\<rparr>) \<and>
   fst (listen bound (FetchResponse True (''203.0.113.9'' @ [CHR 0x0A])) (None, new_agent opts)) =
     Inr (Resolved \<lparr>port = bound, publicIp = Some ''203.0.113.9''\<rparr>)"
  by (simp add: listen_def listen_agent_def new_agent_def getPublicIPv4_def truthy_def trim_def
        is_space_def)

text \<open>
  C9. On every admission the address recorded in \<open>agentIps\<close> is the sanitised peer address:
  the address itself when ipaddr.js accepts it as IPv4; for a valid IPv6 address, the IPv4
  form when it is IPv4-mapped and the normalised IPv6 form otherwise; nothing when the string
  is neither. Recording pushes the address unless it is empty or already in the list, so a
  non-empty address is in the list afterwards and nothing is ever removed.
\<close>

theorem peer_address_recorded:
  "connectedSockets a < int (maxTcpSockets a) \<longrightarrow>
     (IPv4_isValid lib (remoteAddress s) \<longrightarrow>
        agentIps (onConnection lib s a) = pushIp (remoteAddress s) (agentIps a)) \<and>
     (\<not> IPv4_isValid lib (remoteAddress s) \<and> IPv6_isValid lib (remoteAddress s) \<and>
      isIPv4MappedAddress lib (IPv6_parse lib (remoteAddress s)) \<longrightarrow>
        agentIps (onConnection lib s a) =
          pushIp (toIPv4AddressString lib (IPv6_parse lib (remoteAddress s))) (agentIps a)) \<and>
     (\<not> IPv4_isValid lib (remoteAddress s) \<and> IPv6_isValid lib (remoteAddress s) \<and>
      \<not> isIPv4MappedAddress lib (IPv6_parse lib (remoteAddress s)) \<longrightarrow>
        agentIps (onConnection lib s a) =
          pushIp (toNormalizedString lib (IPv6_parse lib (remoteAddress s))) (agentIps a)) \<and>
     (\<not> IPv4_isValid lib (remoteAddress s) \<and> \<not> IPv6_isValid lib (remoteAddress s) \<longrightarrow>
        agentIps (onConnection lib s a) = agentIps a) \<and>
     (ip \<noteq> [] \<longrightarrow> ip \<in> set (pushIp ip (agentIps a))) \<and>
     set (agentIps a) \<subseteq> set (pushIp ip (agentIps a))"
proof -
  {
    assume room: "connectedSockets a < int (maxTcpSockets a)"
    have "agentIps (onConnection lib s a) = recordedIps lib s a"
      unfolding onConnection_admitted [OF room] by simp
  }
  then show ?thesis
    by (auto simp: recordedIps_def agentIpOf_def pushIp_def Let_def)
qed

text \<open>
  The four kinds of peer address on the sample library: \<open>::ffff:1.2.3.4\<close> is recorded as
  \<open>1.2.3.4\<close>.
\<close>

theorem peer_address_recorded_witness:
  "connectedSockets agent_started < int (maxTcpSockets agent_started) \<and>
   agentIps (onConnection ipaddr_sample (Socket 0 ''::ffff:1.2.3.4'') agent_started) = [''1.2.3.4''] \<and>
   agentIps (onConnection ipaddr_sample (Socket 0 ''1.2.3.4'') agent_started) = [''1.2.3.4''] \<and>
   agentIps (onConnection ipaddr_sample (Socket 0 ''::1'') agent_started) = [''0:0:0:0:0:0:0:1''] \<and>
   agentIps (onConnection ipaddr_sample (Socket 0 ''not an address'') agent_started) = []"
  using peer_address_recorded [of agent_started ipaddr_sample "Socket 0 ''::ffff:1.2.3.4''" "''1.2.3.4''"]
    peer_address_recorded [of agent_started ipaddr_sample "Socket 0 ''1.2.3.4''" "''1.2.3.4''"]
    peer_address_recorded [of agent_started ipaddr_sample "Socket 0 ''::1''" "''1.2.3.4''"]
    peer_address_recorded [of agent_started ipaddr_sample "Socket 0 ''not an address''" "''1.2.3.4''"]
  by (simp add: agent_started_eval ipaddr_sample_def pushIp_def)

end
